theory Spec2Isabelle
  imports Complex_Main "HOL-Library.Sublist" "HOL-Library.Multiset"
begin

section \<open>Strings: the Python string operations the import script uses\<close>

text \<open>
  Strings are byte strings (\<open>char list\<close>). \<open>str.lower\<close> is modelled on the ASCII
  letters, which is where the file extensions of the allow-list live.
\<close>

definition ascii_uppercase :: string where
  "ascii_uppercase = ''ABCDEFGHIJKLMNOPQRSTUVWXYZ''"

definition ascii_lowercase :: string where
  "ascii_lowercase = ''abcdefghijklmnopqrstuvwxyz''"

definition lower_char :: "char \<Rightarrow> char" where
  "lower_char c =
     (case map_of (zip ascii_uppercase ascii_lowercase) c of Some l \<Rightarrow> l | None \<Rightarrow> c)"

definition lower :: "string \<Rightarrow> string" where
  "lower s = map lower_char s"

definition os_sep :: char where
  "os_sep = CHR ''/''"

definition extsep :: char where
  "extsep = CHR ''.''"

text \<open>\<open>str.rfind\<close> for a single character: the highest index holding it, or \<open>-1\<close>.\<close>

fun rfind_from :: "char \<Rightarrow> string \<Rightarrow> int \<Rightarrow> int \<Rightarrow> int" where
  "rfind_from c [] i found = found"
| "rfind_from c (x # xs) i found = rfind_from c xs (i + 1) (if x = c then i else found)"

definition rfind :: "string \<Rightarrow> char \<Rightarrow> int" where
  "rfind p c = rfind_from c p 0 (- 1)"

text \<open>
  \<open>os.path.splitext\<close> (posixpath): the extension starts at the last dot of the last
  path component, unless that component consists of leading dots only up to there.
  \<^verbatim>\<open>
    sepIndex = p.rfind(sep)
    dotIndex = p.rfind(extsep)
    if dotIndex > sepIndex:
        filenameIndex = sepIndex + 1
        while filenameIndex < dotIndex:
            if p[filenameIndex:filenameIndex+1] != extsep:
                return p[:dotIndex], p[dotIndex:]
            filenameIndex += 1
    return p, p[:0]
  \<close>
\<close>

definition splitext :: "string \<Rightarrow> string \<times> string" where
  "splitext p =
     (let sepIndex = rfind p os_sep; dotIndex = rfind p extsep in
      if dotIndex > sepIndex \<and>
         list_ex (\<lambda>c. c \<noteq> extsep)
           (take (nat (dotIndex - (sepIndex + 1))) (drop (nat (sepIndex + 1)) p))
      then (take (nat dotIndex) p, drop (nat dotIndex) p)
      else (p, []))"

text \<open>
  \<open>str.replace(old, new)\<close>: every non-overlapping occurrence of \<open>old\<close>, found from
  the left, is replaced. With an empty \<open>old\<close>, \<open>new\<close> is put before every character
  and at the end.
\<close>

function replace_nonempty :: "string \<Rightarrow> string \<Rightarrow> string \<Rightarrow> string" where
  "replace_nonempty [] old new = []"
| "replace_nonempty (c # cs) old new =
     (if old \<noteq> [] \<and> prefix old (c # cs)
      then new @ replace_nonempty (drop (length old) (c # cs)) old new
      else c # replace_nonempty cs old new)"
  by pat_completeness auto
termination
  by (relation "measure (\<lambda>(s, old, new). length s)") (auto simp: neq_Nil_conv)

definition py_replace :: "string \<Rightarrow> string \<Rightarrow> string \<Rightarrow> string" where
  "py_replace s old new =
     (if old = [] then new @ concat (map (\<lambda>c. c # new) s)
      else replace_nonempty s old new)"

section \<open>The import script (projectCreation/import_images.py)\<close>

text \<open>
  What the script reads from outside: whether the database answers, the configured
  \<open>staticfiles_dir\<close>, the paths for which \<open>os.path.isdir\<close> holds, the list \<open>imgFiles\<close>
  of the paths that \<open>listDirectory(imgBaseDir, recursive=True)\<close> yields, and the
  constant \<open>VALID_IMAGE_EXTENSIONS\<close>. The last two come from \<open>util.helpers\<close>, which
  is not among the sources, and are parameters here.
\<close>

record world =
  canConnect :: bool
  staticfiles_dir :: string
  isdir :: "string set"
  imgFiles :: "string list"
  VALID_IMAGE_EXTENSIONS :: "string set"

datatype script_error = ConnectError | NotADirectory string

text \<open>
  The image table of the project, as the multiset of the \<open>filename\<close> column of its
  rows (the script reads and writes no other column).
\<close>

type_synonym image_table = "string multiset"

record run_result =
  table :: image_table
  stdout :: "string list"

text \<open>Lines 59-60: \<open>if not imgBaseDir.endswith(os.sep): imgBaseDir += os.sep\<close>.\<close>

definition with_trailing_sep :: "string \<Rightarrow> string" where
  "with_trailing_sep d = (if d \<noteq> [] \<and> last d = os_sep then d else d @ [os_sep])"

text \<open>Lines 65-77: the loop over the listed paths, with the set \<open>imgs\<close> it fills.\<close>

fun locate_loop ::
  "string set \<Rightarrow> string set \<Rightarrow> string \<Rightarrow> string list \<Rightarrow> string set \<Rightarrow> string set" where
  "locate_loop dirs valid imgBaseDir [] imgs = imgs"
| "locate_loop dirs valid imgBaseDir (i # rest) imgs =
     (if i \<in> dirs then locate_loop dirs valid imgBaseDir rest imgs
      else if lower (snd (splitext i)) \<notin> valid
        then locate_loop dirs valid imgBaseDir rest imgs
      else locate_loop dirs valid imgBaseDir rest
             (insert (py_replace i imgBaseDir []) imgs))"

definition locate_images ::
  "string set \<Rightarrow> string set \<Rightarrow> string \<Rightarrow> string list \<Rightarrow> string set" where
  "locate_images dirs valid imgBaseDir files =
     locate_loop dirs valid imgBaseDir files {}"

text \<open>
  Lines 81-87: the filenames already registered. The driver returns the rows of the
  table, or \<open>None\<close>, which the script reads as no rows.
\<close>

definition imgs_existing_of :: "image_table option \<Rightarrow> string set" where
  "imgs_existing_of rows = (case rows of Some r \<Rightarrow> set_mset r | None \<Rightarrow> {})"

text \<open>Line 89: \<open>imgs.difference(imgs_existing)\<close>.\<close>

definition difference :: "'a set \<Rightarrow> 'a set \<Rightarrow> 'a set" where
  "difference imgs imgs_existing = {i \<in> imgs. i \<notin> imgs_existing}"

text \<open>
  Lines 79-98: read the registered filenames, keep the candidates that are not among
  them, and insert one row for each. The driver is taken to answer the \<open>SELECT\<close> with
  all rows of the table. The rows inserted are a list made from a set, in no particular
  order: a multiset.
\<close>

definition new_rows :: "image_table \<Rightarrow> string set \<Rightarrow> string multiset" where
  "new_rows tbl imgs = mset_set (difference imgs (imgs_existing_of (Some tbl)))"

definition ingest :: "image_table \<Rightarrow> string set \<Rightarrow> image_table" where
  "ingest tbl imgs = tbl + new_rows tbl imgs"

definition import_images :: "world \<Rightarrow> image_table \<Rightarrow> script_error + run_result" where
  "import_images w tbl =
     (if \<not> canConnect w then Inl ConnectError
      else if staticfiles_dir w \<notin> isdir w then Inl (NotADirectory (staticfiles_dir w))
      else
        let imgBaseDir = with_trailing_sep (staticfiles_dir w);
            imgs = locate_images (isdir w) (VALID_IMAGE_EXTENSIONS w) imgBaseDir (imgFiles w)
        in Inr \<lparr> table = ingest tbl imgs,
                 stdout = [''Setup...'', ''Locating image paths...'',
                           ''Filter images already in database...'',
                           ''Adding to database...'', ''Done.''] \<rparr>)"

section \<open>Python values and the object store\<close>

text \<open>
  The request handlers work on the decoded JSON body, a graph of dicts and lists that
  \<open>_parse_range\<close> copies and then assigns into. Dicts and lists are therefore objects
  of a store, addressed by references; the other values are immediate. A dict keeps its
  items in insertion order, with string keys as JSON gives them. \<open>PTime\<close> is a
  \<open>datetime.time\<close> (hour, minute, second, microsecond), \<open>PDatetime\<close> a
  \<open>datetime.datetime\<close> by its POSIX time stamp, \<open>PFloat\<close> a float by the number it
  stands for.
\<close>

type_synonym addr = nat

datatype pyval =
    PNone
  | PBool bool
  | PInt int
  | PFloat real
  | PStr string
  | PTime nat nat nat nat
  | PDatetime int
  | PRef addr

datatype pyobj = ODict "(string \<times> pyval) list" | OList "pyval list"

type_synonym store = "pyobj list"

text \<open>
  \<open>TypeError\<close>, \<open>KeyError\<close> and \<open>AttributeError\<close> are the Python exceptions,
  \<open>HTTP401\<close> is bottle's \<open>abort(401, 'forbidden')\<close>, \<open>InvalidParameter\<close> is the failure
  of the specification's taxonomy. \<open>DanglingRef\<close> is no Python exception: it is the
  answer of the model for a reference that points outside the store, which Python never
  builds.
\<close>

datatype error = TypeError | KeyError | AttributeError | DanglingRef | HTTP401 | InvalidParameter

type_synonym 'a py = "store \<Rightarrow> (error + 'a) \<times> store"

definition ret :: "'a \<Rightarrow> 'a py" where
  "ret x h = (Inr x, h)"

definition raise :: "error \<Rightarrow> 'a py" where
  "raise e h = (Inl e, h)"

definition bind :: "'a py \<Rightarrow> ('a \<Rightarrow> 'b py) \<Rightarrow> 'b py" where
  "bind m f h = (case m h of (Inl e, h') \<Rightarrow> (Inl e, h') | (Inr x, h') \<Rightarrow> f x h')"

definition lookup :: "store \<Rightarrow> addr \<Rightarrow> pyobj option" where
  "lookup h a = (if a < length h then Some (h ! a) else None)"

text \<open>\<open>sub in s\<close> on strings: \<open>sub\<close> occurs in \<open>s\<close>.\<close>

fun contains :: "string \<Rightarrow> string \<Rightarrow> bool" where
  "contains sub [] = (sub = [])"
| "contains sub (c # cs) = (prefix sub (c # cs) \<or> contains sub cs)"

text \<open>
  \<open>k in x\<close> for a string \<open>k\<close>: a key of a dict, an element of a list, a substring of a
  string; the other values are not iterable.
\<close>

definition py_in :: "string \<Rightarrow> pyval \<Rightarrow> bool py" where
  "py_in k x h =
     (case x of
        PStr s \<Rightarrow> ret (contains k s) h
      | PRef a \<Rightarrow>
          (case lookup h a of
             None \<Rightarrow> raise DanglingRef h
           | Some (ODict d) \<Rightarrow> ret (k \<in> set (map fst d)) h
           | Some (OList l) \<Rightarrow> ret (PStr k \<in> set l) h)
      | _ \<Rightarrow> raise TypeError h)"

text \<open>
  \<open>x[k]\<close> for a string \<open>k\<close>: the item of a dict, or \<open>KeyError\<close>; lists and strings
  take integer indices only and the other values are not subscriptable.
\<close>

definition py_getitem :: "pyval \<Rightarrow> string \<Rightarrow> pyval py" where
  "py_getitem x k h =
     (case x of
        PRef a \<Rightarrow>
          (case lookup h a of
             None \<Rightarrow> raise DanglingRef h
           | Some (ODict d) \<Rightarrow>
               (case map_of d k of None \<Rightarrow> raise KeyError h | Some v \<Rightarrow> ret v h)
           | Some (OList l) \<Rightarrow> raise TypeError h)
      | _ \<Rightarrow> raise TypeError h)"

text \<open>
  \<open>d[k] = v\<close> on a list of items: the value of an existing key is replaced in place, a
  new key goes to the end.
\<close>

fun dict_set :: "string \<Rightarrow> pyval \<Rightarrow> (string \<times> pyval) list \<Rightarrow> (string \<times> pyval) list" where
  "dict_set k v [] = [(k, v)]"
| "dict_set k v (p # ps) = (if fst p = k then (k, v) # ps else p # dict_set k v ps)"

text \<open>\<open>x[k] = v\<close> for a string \<open>k\<close>: the object \<open>x\<close> refers to is updated in place.\<close>

definition py_setitem :: "pyval \<Rightarrow> string \<Rightarrow> pyval \<Rightarrow> unit py" where
  "py_setitem x k v h =
     (case x of
        PRef a \<Rightarrow>
          (case lookup h a of
             None \<Rightarrow> raise DanglingRef h
           | Some (ODict d) \<Rightarrow> ret () (h[a := ODict (dict_set k v d)])
           | Some (OList l) \<Rightarrow> raise TypeError h)
      | _ \<Rightarrow> raise TypeError h)"

text \<open>
  \<open>x.copy()\<close>: dicts and lists have it and give a new object with the same items (a
  shallow copy); the other values have no such attribute.
\<close>

definition py_copy :: "pyval \<Rightarrow> pyval py" where
  "py_copy x h =
     (case x of
        PRef a \<Rightarrow>
          (case lookup h a of
             None \<Rightarrow> raise DanglingRef h
           | Some obj \<Rightarrow> ret (PRef (length h)) (h @ [obj]))
      | _ \<Rightarrow> raise AttributeError h)"

text \<open>\<open>x.lower()\<close>: strings only.\<close>

definition py_lower :: "pyval \<Rightarrow> pyval py" where
  "py_lower x h = (case x of PStr s \<Rightarrow> ret (PStr (lower s)) h | _ \<Rightarrow> raise AttributeError h)"

text \<open>\<open>datetime.time.min\<close>, the earliest representable time: \<open>time(0, 0, 0, 0)\<close>.\<close>

definition datetime_time_min :: pyval where
  "datetime_time_min = PTime 0 0 0 0"

section \<open>The request handlers (modules/DataAdministration/app.py)\<close>

text \<open>
  \<open>DataAdministrator._parse_range\<close>, lines 46-64.
  \<^verbatim>\<open>
    if params is None or not paramName in params:
        return None
    entry = params[paramName].copy()
    if not 'min' in entry:
        entry['min'] = minValue
    if not 'max' in entry:
        entry['max'] = maxValue
    return (entry['min'], entry['max'])
  \<close>
\<close>

definition fill_default :: "pyval \<Rightarrow> string \<Rightarrow> pyval \<Rightarrow> unit py" where
  "fill_default entry k v =
     bind (py_in k entry) (\<lambda>present. if \<not> present then py_setitem entry k v else ret ())"

definition parse_range ::
  "pyval \<Rightarrow> string \<Rightarrow> pyval \<Rightarrow> pyval \<Rightarrow> (pyval \<times> pyval) option py" where
  "parse_range params paramName minValue maxValue =
     (if params = PNone then ret None
      else bind (py_in paramName params) (\<lambda>present.
        if \<not> present then ret None
        else
          bind (py_getitem params paramName) (\<lambda>item.
          bind (py_copy item) (\<lambda>entry.
          bind (fill_default entry ''min'' minValue) (\<lambda>_.
          bind (fill_default entry ''max'' maxValue) (\<lambda>_.
          bind (py_getitem entry ''min'') (\<lambda>lo.
          bind (py_getitem entry ''max'') (\<lambda>hi.
          ret (Some (lo, hi))))))))))"

text \<open>What \<open>list_images\<close> hands to \<open>middleware.listImages\<close>, lines 106-114.\<close>

record list_args =
  la_project :: string
  la_imageAddedRange :: "(pyval \<times> pyval) option"
  la_lastViewedRange :: "(pyval \<times> pyval) option"
  la_viewcountRange :: "(pyval \<times> pyval) option"
  la_numAnnoRange :: "(pyval \<times> pyval) option"
  la_numPredRange :: "(pyval \<times> pyval) option"
  la_orderBy :: pyval
  la_order :: pyval
  la_limit :: pyval

text \<open>\<open>params[k] if k in params else None\<close>, lines 100 and 102.\<close>

definition get_or_none :: "pyval \<Rightarrow> string \<Rightarrow> pyval py" where
  "get_or_none params k =
     bind (py_in k params) (\<lambda>present. if present then py_getitem params k else ret PNone)"

text \<open>\<open>params['order'].lower() if 'order' in params else None\<close>, line 101.\<close>

definition get_lower_or_none :: "pyval \<Rightarrow> string \<Rightarrow> pyval py" where
  "get_lower_or_none params k =
     bind (py_in k params) (\<lambda>present.
       if present then bind (py_getitem params k) py_lower else ret PNone)"

text \<open>
  Lines 82-102 of \<open>list_images\<close>: the parameters are parsed in this order, with these
  defaults. \<open>now\<close> is \<open>helpers.current_time()\<close>, \<open>params\<close> is \<open>request.json\<close>.
\<close>

definition list_images_args :: "pyval \<Rightarrow> string \<Rightarrow> pyval \<Rightarrow> list_args py" where
  "list_images_args now project params =
     bind (parse_range params ''imageAddedRange'' datetime_time_min now) (\<lambda>imageAddedRange.
     bind (parse_range params ''lastViewedRange'' datetime_time_min now) (\<lambda>lastViewedRange.
     bind (parse_range params ''viewcountRange'' (PInt 0) (PFloat 1000000000)) (\<lambda>viewcountRange.
     bind (parse_range params ''numAnnoRange'' (PInt 0) (PFloat 1000000000)) (\<lambda>numAnnoRange.
     bind (parse_range params ''numPredRange'' (PInt 0) (PFloat 1000000000)) (\<lambda>numPredRange.
     bind (get_or_none params ''orderBy'') (\<lambda>orderBy.
     bind (get_lower_or_none params ''order'') (\<lambda>order.
     bind (get_or_none params ''limit'') (\<lambda>limit.
     ret \<lparr> la_project = project,
           la_imageAddedRange = imageAddedRange,
           la_lastViewedRange = lastViewedRange,
           la_viewcountRange = viewcountRange,
           la_numAnnoRange = numAnnoRange,
           la_numPredRange = numPredRange,
           la_orderBy = orderBy,
           la_order = order,
           la_limit = limit \<rparr>))))))))"

text \<open>
  \<open>list_images\<close>, lines 72-116. The middleware is a parameter: it gets the store and the
  arguments and answers with its result, or the exception it raises, and with the
  queries it has issued to the storage driver. \<open>authorized\<close> is the answer of
  \<open>loginCheck(project=project, admin=True)\<close>. The handler catches nothing.
\<close>

datatype 'r list_response = ListResponse 'r

definition list_images ::
  "(store \<Rightarrow> list_args \<Rightarrow> (error + 'r) \<times> 'q list) \<Rightarrow> bool \<Rightarrow> pyval \<Rightarrow> string \<Rightarrow> pyval \<Rightarrow>
     store \<Rightarrow> (error + 'r list_response) \<times> 'q list" where
  "list_images listImages authorized now project params h =
     (if \<not> authorized then (Inl HTTP401, [])
      else
        case list_images_args now project params h of
          (Inl e, h') \<Rightarrow> (Inl e, [])
        | (Inr args, h') \<Rightarrow>
            (case listImages h' args of
               (Inl e, qs) \<Rightarrow> (Inl e, qs)
             | (Inr result, qs) \<Rightarrow> (Inr (ListResponse result), qs)))"

text \<open>What \<open>remove_images\<close> hands to \<open>middleware.removeImages\<close>, lines 201-204.\<close>

record remove_args =
  ra_project :: string
  ra_imageIDs :: pyval
  ra_forceRemove :: pyval
  ra_deleteFromDisk :: pyval

text \<open>\<open>data[k] if k in data else False\<close>, lines 192-199.\<close>

definition get_or_false :: "pyval \<Rightarrow> string \<Rightarrow> pyval py" where
  "get_or_false data k =
     bind (py_in k data) (\<lambda>present. if present then py_getitem data k else ret (PBool False))"

definition remove_images_args :: "string \<Rightarrow> pyval \<Rightarrow> remove_args py" where
  "remove_images_args project data =
     bind (py_getitem data ''images'') (\<lambda>imageIDs.
     bind (get_or_false data ''forceRemove'') (\<lambda>forceRemove.
     bind (get_or_false data ''deleteFromDisk'') (\<lambda>deleteFromDisk.
     ret \<lparr> ra_project = project,
           ra_imageIDs = imageIDs,
           ra_forceRemove = forceRemove,
           ra_deleteFromDisk = deleteFromDisk \<rparr>)))"

text \<open>
  \<open>remove_images\<close>, lines 180-209. Everything after the login check runs inside
  \<open>try\<close>: an exception, of the handler or of the middleware, becomes the answer
  \<open>{'status': 1, 'message': str(e)}\<close>; otherwise the answer is
  \<open>{'status': 0, 'images_deleted': ...}\<close>.
\<close>

datatype 'r remove_response = Status0 'r | Status1 error

definition remove_images ::
  "(store \<Rightarrow> remove_args \<Rightarrow> error + 'r) \<Rightarrow> bool \<Rightarrow> string \<Rightarrow> pyval \<Rightarrow> store \<Rightarrow>
     error + 'r remove_response" where
  "remove_images removeImages authorized project data h =
     (if \<not> authorized then Inl HTTP401
      else
        case remove_images_args project data h of
          (Inl e, h') \<Rightarrow> Inr (Status1 e)
        | (Inr args, h') \<Rightarrow>
            (case removeImages h' args of
               Inl e \<Rightarrow> Inr (Status1 e)
             | Inr images_deleted \<Rightarrow> Inr (Status0 images_deleted)))"

section \<open>The inventory diff and the inventory query of the specification\<close>

text \<open>
  Modelled from the spec: the pair \<open>diff(diskKeys, dbKeys)\<close> of section 4.2. The
  sources compute its first component only (line 89 of the import script, with
  \<open>difference\<close> above); the second component, the registered keys that are missing on
  disk, is computed nowhere in them and is the same set difference the other way round.
\<close>

definition inventory_diff :: "'a set \<Rightarrow> 'a set \<Rightarrow> 'a set \<times> 'a set" where
  "inventory_diff diskKeys dbKeys = (difference diskKeys dbKeys, difference dbKeys diskKeys)"

text \<open>
  Modelled from the spec: the image record of section 3, with the derived counts the
  query filters on. The sources hold no declaration of the image table; the query over
  it is in the middleware, \<open>backend/middleware.py\<close>, which is not among them.
\<close>

record image =
  img_id :: nat
  img_filename :: string
  img_dateAdded :: pyval
  img_lastViewed :: pyval
  img_viewcount :: int
  img_numAnnotations :: int
  img_numPredictions :: int

text \<open>
  Modelled from the spec: the numeric reading of a bound of a count filter. The query
  builder, \<open>DataAdministrationMiddleware.listImages\<close> in \<open>backend/middleware.py\<close>, is
  not among the sources.
\<close>

definition num_of :: "pyval \<Rightarrow> real option" where
  "num_of v = (case v of PInt i \<Rightarrow> Some (of_int i) | PFloat r \<Rightarrow> Some r | _ \<Rightarrow> None)"

text \<open>
  Modelled from the spec: a count filter whose bounds are not both numbers is a
  malformed filter (section 7); the middleware is not among the sources.
\<close>

definition malformed_count_range :: "(pyval \<times> pyval) option \<Rightarrow> bool" where
  "malformed_count_range r =
     (case r of None \<Rightarrow> False | Some (lo, hi) \<Rightarrow> num_of lo = None \<or> num_of hi = None)"

text \<open>
  Modelled from the spec: \<open>buildQuery\<close> of section 4.5, the part of the absent
  \<open>DataAdministrationMiddleware.listImages\<close> that turns the arguments of the handler
  into a query. \<open>orderBy\<close> must be absent or a column of the fixed allow-list
  \<open>sortable\<close>, \<open>order\<close> absent or one of the recognised directions \<open>orders\<close>;
  anything else, and a malformed filter, is \<open>InvalidParameter\<close> for the whole call.
  The allow-list and the directions are deployment constants, parameters here.
\<close>

definition buildQuery :: "string set \<Rightarrow> string set \<Rightarrow> list_args \<Rightarrow> error + list_args" where
  "buildQuery sortable orders args =
     (if la_orderBy args \<noteq> PNone \<and> la_orderBy args \<notin> PStr ` sortable then Inl InvalidParameter
      else if la_order args \<noteq> PNone \<and> la_order args \<notin> PStr ` orders then Inl InvalidParameter
      else if malformed_count_range (la_viewcountRange args)
              \<or> malformed_count_range (la_numAnnoRange args)
              \<or> malformed_count_range (la_numPredRange args) then Inl InvalidParameter
      else Inr args)"

text \<open>
  Modelled from the spec: an image satisfies a supplied count filter when its count
  lies between the two bounds, both included; a filter that is not supplied is
  satisfied by every image (section 4.5, absent middleware).
\<close>

definition in_count_range :: "(pyval \<times> pyval) option \<Rightarrow> int \<Rightarrow> bool" where
  "in_count_range r n =
     (case r of
        None \<Rightarrow> True
      | Some (lo, hi) \<Rightarrow>
          (case (num_of lo, num_of hi) of
             (Some l, Some u) \<Rightarrow> l \<le> of_int n \<and> of_int n \<le> u
           | _ \<Rightarrow> False))"

text \<open>
  Modelled from the spec: the same for a temporal filter, with the order \<open>tle\<close> of the
  storage layer on time values as a parameter (section 4.5, absent middleware).
\<close>

definition in_time_range ::
  "(pyval \<Rightarrow> pyval \<Rightarrow> bool) \<Rightarrow> (pyval \<times> pyval) option \<Rightarrow> pyval \<Rightarrow> bool" where
  "in_time_range tle r t =
     (case r of None \<Rightarrow> True | Some (lo, hi) \<Rightarrow> tle lo t \<and> tle t hi)"

text \<open>
  Modelled from the spec: the images of the result satisfy all supplied filters
  (section 4.5, absent middleware).
\<close>

definition satisfies_filters :: "(pyval \<Rightarrow> pyval \<Rightarrow> bool) \<Rightarrow> list_args \<Rightarrow> image \<Rightarrow> bool" where
  "satisfies_filters tle q img =
     (in_time_range tle (la_imageAddedRange q) (img_dateAdded img)
      \<and> in_time_range tle (la_lastViewedRange q) (img_lastViewed img)
      \<and> in_count_range (la_viewcountRange q) (img_viewcount img)
      \<and> in_count_range (la_numAnnoRange q) (img_numAnnotations img)
      \<and> in_count_range (la_numPredRange q) (img_numPredictions img))"

text \<open>
  Modelled from the spec: \<open>DataAdministrationMiddleware.listImages\<close>, absent from the
  sources, after section 4.5: the query is built first and a failure there fails the
  whole call before anything is sent to the storage driver; otherwise the one query is
  issued and selects the images of the inventory that satisfy all supplied filters.
  The answer is that selection, before the ordering and the limit, which are not
  modelled.
\<close>

definition listImages_spec ::
  "string set \<Rightarrow> string set \<Rightarrow> (pyval \<Rightarrow> pyval \<Rightarrow> bool) \<Rightarrow> image list \<Rightarrow>
     store \<Rightarrow> list_args \<Rightarrow> (error + image list) \<times> list_args list" where
  "listImages_spec sortable orders tle inventory h args =
     (case buildQuery sortable orders args of
        Inl e \<Rightarrow> (Inl e, [])
      | Inr q \<Rightarrow> (Inr (filter (satisfies_filters tle q) inventory), [q]))"

section \<open>The range a filter entry stands for\<close>

text \<open>
  The reading of a filter entry that the documentation of \<open>_parse_range\<close> gives, to
  compare the function with: the bound of the entry if the entry has the key, and the
  default otherwise.
\<close>

definition bound_or :: "(string \<times> pyval) list \<Rightarrow> string \<Rightarrow> pyval \<Rightarrow> pyval" where
  "bound_or entry k dflt = (case map_of entry k of None \<Rightarrow> dflt | Some v \<Rightarrow> v)"

text \<open>
  A filter name is well-formed in the items \<open>d\<close> of \<open>params\<close> when it is absent or
  refers to a dict, as the documentation of \<open>_parse_range\<close> expects.
\<close>

definition wf_entry :: "store \<Rightarrow> (string \<times> pyval) list \<Rightarrow> string \<Rightarrow> bool" where
  "wf_entry h d k =
     (case map_of d k of
        None \<Rightarrow> True
      | Some (PRef e) \<Rightarrow> (case lookup h e of Some (ODict entry) \<Rightarrow> True | _ \<Rightarrow> False)
      | Some _ \<Rightarrow> False)"

definition expected_range ::
  "store \<Rightarrow> (string \<times> pyval) list \<Rightarrow> string \<Rightarrow> pyval \<Rightarrow> pyval \<Rightarrow> (pyval \<times> pyval) option" where
  "expected_range h d k minValue maxValue =
     (case map_of d k of
        Some (PRef e) \<Rightarrow>
          (case lookup h e of
             Some (ODict entry) \<Rightarrow>
               Some (bound_or entry ''min'' minValue, bound_or entry ''max'' maxValue)
           | _ \<Rightarrow> None)
      | _ \<Rightarrow> None)"

text \<open>The five filter names \<open>list_images\<close> parses.\<close>

definition filter_names :: "string list" where
  "filter_names = [''imageAddedRange'', ''lastViewedRange'', ''viewcountRange'',
                   ''numAnnoRange'', ''numPredRange'']"

text \<open>\<open>order\<close> is well-formed when it is absent or a string, which \<open>.lower()\<close> needs.\<close>

definition wf_order :: "(string \<times> pyval) list \<Rightarrow> bool" where
  "wf_order d = (case map_of d ''order'' of None \<Rightarrow> True | Some (PStr s) \<Rightarrow> True | Some _ \<Rightarrow> False)"

definition wf_params :: "store \<Rightarrow> (string \<times> pyval) list \<Rightarrow> bool" where
  "wf_params h d = (list_all (wf_entry h d) filter_names \<and> wf_order d)"

section \<open>Properties of the import script\<close>

lemmas string_defs = lower_def lower_char_def ascii_uppercase_def ascii_lowercase_def
  splitext_def rfind_def os_sep_def extsep_def py_replace_def

lemma difference_minus: "difference A B = A - B"
  by (auto simp: difference_def)

lemma locate_loop_set:
  "locate_loop dirs valid base files imgs =
     imgs \<union> (\<lambda>i. py_replace i base []) `
       {i \<in> set files. i \<notin> dirs \<and> lower (snd (splitext i)) \<in> valid}"
  by (induction files arbitrary: imgs) auto

lemma finite_locate_images: "finite (locate_images dirs valid base files)"
  by (simp add: locate_images_def locate_loop_set)

lemma set_new_rows: "finite imgs \<Longrightarrow> set_mset (new_rows tbl imgs) = imgs - set_mset tbl"
  by (simp add: new_rows_def difference_minus imgs_existing_of_def)

lemma count_new_rows:
  "finite imgs \<Longrightarrow> count (new_rows tbl imgs) f = (if f \<in> imgs \<and> f \<notin># tbl then 1 else 0)"
  by (simp add: new_rows_def difference_minus imgs_existing_of_def)

lemma count_ingest:
  "finite imgs \<Longrightarrow>
   count (ingest tbl imgs) f = (if f \<in> imgs \<and> f \<notin># tbl then 1 else count tbl f)"
  by (auto simp: ingest_def count_new_rows count_eq_zero_iff)

lemma set_ingest: "finite imgs \<Longrightarrow> set_mset (ingest tbl imgs) = set_mset tbl \<union> imgs"
  by (auto simp: ingest_def set_new_rows)

lemma new_rows_again: "finite imgs \<Longrightarrow> new_rows (ingest tbl imgs) imgs = {#}"
  by (rule multiset_eqI) (simp add: count_new_rows set_ingest)

lemma ingest_again: "finite imgs \<Longrightarrow> ingest (ingest tbl imgs) imgs = ingest tbl imgs"
  by (subst (1) ingest_def) (simp add: new_rows_again)

text \<open>
  Where the base directory occurs only at the front of a path, \<open>replace\<close> does strip
  exactly that prefix.
\<close>

lemma replace_nonempty_absent: "\<not> contains old s \<Longrightarrow> replace_nonempty s old new = s"
  by (induction s old new rule: replace_nonempty.induct) auto

lemma py_replace_prefix_once:
  "base \<noteq> [] \<Longrightarrow> \<not> contains base rest \<Longrightarrow> py_replace (base @ rest) base [] = rest"
  by (cases base) (auto simp: py_replace_def replace_nonempty_absent)

subsection \<open>C1: ingesting a filename twice\<close>

text \<open>
  C1, as the claim states it, fails on its report: the script tells nothing about a
  filename it skips. Run on a table that already holds \<open>a.jpg\<close>, with \<open>a.jpg\<close> on
  disk, it leaves the table as it is and prints its five fixed progress lines, the very
  lines it prints when it inserts the file into an empty table; no line reports a
  duplicate.
\<close>

theorem import_images_reports_no_duplicate:
  "import_images
     \<lparr> canConnect = True, staticfiles_dir = ''/data'', isdir = {''/data''},
       imgFiles = [''/data/a.jpg''], VALID_IMAGE_EXTENSIONS = {''.jpg''} \<rparr>
     {#''a.jpg''#}
   = Inr \<lparr> table = {#''a.jpg''#},
           stdout = [''Setup...'', ''Locating image paths...'',
                     ''Filter images already in database...'',
                     ''Adding to database...'', ''Done.''] \<rparr>
   \<and> import_images
     \<lparr> canConnect = True, staticfiles_dir = ''/data'', isdir = {''/data''},
       imgFiles = [''/data/a.jpg''], VALID_IMAGE_EXTENSIONS = {''.jpg''} \<rparr>
     {#}
   = Inr \<lparr> table = {#''a.jpg''#},
           stdout = [''Setup...'', ''Locating image paths...'',
                     ''Filter images already in database...'',
                     ''Adding to database...'', ''Done.''] \<rparr>"
  by (simp add: import_images_def with_trailing_sep_def locate_images_def string_defs
        ingest_def new_rows_def difference_minus imgs_existing_of_def)

text \<open>
  C1, amended: on a table whose filenames are unique, ingesting the same candidates
  twice in a row leaves exactly one row for each candidate filename. The ingestion
  reads the registered filenames from the table it is about to write to; the second
  ingestion inserts no row at all; the filenames stay unique; and no ingestion inserts
  a row for a filename that is already registered.
\<close>

theorem ingest_twice_one_row:
  assumes "finite imgs" and "\<forall>g. count tbl g \<le> 1" and "f \<in> imgs"
  shows "count (ingest (ingest tbl imgs) imgs) f = 1
         \<and> new_rows (ingest tbl imgs) imgs = {#}
         \<and> ingest (ingest tbl imgs) imgs = ingest tbl imgs
         \<and> (\<forall>g. count (ingest (ingest tbl imgs) imgs) g \<le> 1)
         \<and> set_mset (new_rows tbl imgs) \<inter> set_mset tbl = {}"
proof -
  have one: "count (ingest tbl imgs) g \<le> 1" for g
    using assms(1,2) by (simp add: count_ingest)
  have "count tbl f = 1" if "f \<in># tbl"
    using that assms(2) by (metis count_greater_eq_one_iff le_antisym)
  then have "count (ingest tbl imgs) f = 1"
    using assms(1,3) by (simp add: count_ingest)
  then show ?thesis
    using assms(1) one by (auto simp: ingest_again new_rows_again set_new_rows)
qed

theorem ingest_twice_one_row_witness:
  "finite {''a.jpg'', ''b.jpg''} \<and> (\<forall>g. count {#''b.jpg''#} g \<le> 1)
   \<and> ''a.jpg'' \<in> {''a.jpg'', ''b.jpg''}
   \<and> count (ingest (ingest {#''b.jpg''#} {''a.jpg'', ''b.jpg''}) {''a.jpg'', ''b.jpg''})
        ''a.jpg'' = 1
   \<and> new_rows (ingest {#''b.jpg''#} {''a.jpg'', ''b.jpg''}) {''a.jpg'', ''b.jpg''} = {#}"
proof -
  have h1: "finite {''a.jpg'', ''b.jpg''}" by simp
  have h2: "\<forall>g. count {#''b.jpg''#} g \<le> 1" by simp
  have h3: "''a.jpg'' \<in> {''a.jpg'', ''b.jpg''}" by simp
  show ?thesis
    using h1 h2 h3 ingest_twice_one_row [OF h1 h2 h3] by blast
qed

subsection \<open>C2: the names the ingestion accepts\<close>




subsection \<open>C6: the files the scan selects\<close>

text \<open>
  C6: the scan selects exactly the listed paths that are no directories and whose
  extension, in lower case, is in the list of valid extensions; the set it builds holds
  the base names of these paths. With \<open>a.jpg\<close>, \<open>b.JPG\<close>, \<open>c.txt\<close> and \<open>sub/d.png\<close>
  under \<open>/data/\<close> and the valid extensions \<open>.jpg\<close> and \<open>.png\<close> it yields \<open>a.jpg\<close>,
  \<open>b.JPG\<close> and \<open>sub/d.png\<close>.
\<close>

theorem locate_images_selects_by_extension:
  "locate_images dirs valid base files =
     (\<lambda>i. py_replace i base []) `
       {i \<in> set files. i \<notin> dirs \<and> lower (snd (splitext i)) \<in> valid}
   \<and> locate_images {''/data/sub''} {''.jpg'', ''.png''} ''/data/''
       [''/data/a.jpg'', ''/data/b.JPG'', ''/data/c.txt'', ''/data/sub'', ''/data/sub/d.png'']
     = {''a.jpg'', ''b.JPG'', ''sub/d.png''}"
proof
  show "locate_images dirs valid base files =
     (\<lambda>i. py_replace i base []) `
       {i \<in> set files. i \<notin> dirs \<and> lower (snd (splitext i)) \<in> valid}"
    by (simp add: locate_images_def locate_loop_set)
  show "locate_images {''/data/sub''} {''.jpg'', ''.png''} ''/data/''
       [''/data/a.jpg'', ''/data/b.JPG'', ''/data/c.txt'', ''/data/sub'', ''/data/sub/d.png'']
     = {''a.jpg'', ''b.JPG'', ''sub/d.png''}"
    by (simp add: locate_images_def string_defs insert_commute)
qed

theorem locate_images_selects_by_extension_witness:
  "locate_images {''/srv/img/raw''} {''.tif''} ''/srv/img/''
     [''/srv/img/raw'', ''/srv/img/raw/x.TIF'', ''/srv/img/notes.md'']
   = {''raw/x.TIF''}"
proof -
  have "(\<lambda>i. py_replace i ''/srv/img/'' []) `
          {i \<in> set [''/srv/img/raw'', ''/srv/img/raw/x.TIF'', ''/srv/img/notes.md''].
             i \<notin> {''/srv/img/raw''} \<and> lower (snd (splitext i)) \<in> {''.tif''}}
        = {''raw/x.TIF''}"
    unfolding set_filter [symmetric] by (simp add: string_defs)
  then show ?thesis
    using locate_images_selects_by_extension
      [of "{''/srv/img/raw''}" "{''.tif''}" "''/srv/img/''"
          "[''/srv/img/raw'', ''/srv/img/raw/x.TIF'', ''/srv/img/notes.md'']"]
    by simp
qed

subsection \<open>C7: the key of a scanned path\<close>

text \<open>
  C7 fails on the code: \<open>i.replace(imgBaseDir, '')\<close> deletes every occurrence of the
  base directory, not the prefix alone. With the base directory \<open>/data/\<close>, the file
  \<open>/data/backup/data/img.jpg\<close> gets the key \<open>backupimg.jpg\<close> where the claim has
  \<open>backup/data/img.jpg\<close>.
\<close>

theorem baseName_loses_inner_occurrence:
  "locate_images {} {''.jpg''} ''/data/'' [''/data/backup/data/img.jpg''] = {''backupimg.jpg''}"
  by (simp add: locate_images_def string_defs)

subsection \<open>C8: the inventory diff\<close>

text \<open>
  C8: the first component of the diff is the disk keys without the database keys, the
  second the database keys without the disk keys; the two are disjoint, and with the
  keys common to both they make up all keys.
\<close>

theorem inventory_diff_partition:
  "fst (inventory_diff D B) = D - B \<and> snd (inventory_diff D B) = B - D
   \<and> fst (inventory_diff D B) \<inter> snd (inventory_diff D B) = {}
   \<and> fst (inventory_diff D B) \<union> snd (inventory_diff D B) \<union> (D \<inter> B) = D \<union> B"
  by (auto simp: inventory_diff_def difference_def)

theorem inventory_diff_partition_witness:
  "inventory_diff {''a.jpg'', ''b.jpg''} {''b.jpg'', ''c.jpg''} = ({''a.jpg''}, {''c.jpg''})"
  using inventory_diff_partition [of "{''a.jpg'', ''b.jpg''}" "{''b.jpg'', ''c.jpg''}"]
  by (auto simp: prod_eq_iff)

section \<open>Properties of the request handlers\<close>

subsection \<open>The operations on the store\<close>

lemma bind_Inr: "m h = (Inr x, h') \<Longrightarrow> bind m f h = f x h'"
  by (simp add: bind_def)

lemma bind_succeeds:
  assumes "bind m f h = (Inr y, h2)"
  obtains x h1 where "m h = (Inr x, h1)" and "f x h1 = (Inr y, h2)"
  using assms by (auto simp: bind_def split: prod.splits sum.splits)

lemma map_of_dict_set: "map_of (dict_set k v d) k' = (if k' = k then Some v else map_of d k')"
  by (induction d) auto

lemma lookup_append: "lookup h a = Some obj \<Longrightarrow> lookup (h @ ext) a = Some obj"
  by (auto simp: lookup_def nth_append split: if_splits)

lemma lookup_fresh: "lookup (h @ [obj]) (length h) = Some obj"
  by (simp add: lookup_def)

lemma py_in_dict:
  "lookup h a = Some (ODict d) \<Longrightarrow> py_in k (PRef a) h = (Inr (map_of d k \<noteq> None), h)"
  by (simp add: py_in_def ret_def map_of_eq_None_iff)

lemma py_getitem_dict:
  "lookup h a = Some (ODict d) \<Longrightarrow> map_of d k = Some v \<Longrightarrow> py_getitem (PRef a) k h = (Inr v, h)"
  by (simp add: py_getitem_def ret_def)

lemma py_in_store: "snd (py_in k x h) = h"
  by (simp add: py_in_def ret_def raise_def split: pyval.splits option.splits pyobj.splits)

lemma py_getitem_store: "snd (py_getitem x k h) = h"
  by (simp add: py_getitem_def ret_def raise_def split: pyval.splits option.splits pyobj.splits)

subsection \<open>\<open>_parse_range\<close> on well-formed parameters\<close>

lemma fill_default_dict:
  "fill_default (PRef (length h)) k v (h @ [ODict ent]) =
     (Inr (), h @ [ODict (if map_of ent k = None then dict_set k v ent else ent)])"
  by (simp add: fill_default_def bind_def py_in_def py_setitem_def ret_def lookup_def
        map_of_eq_None_iff)

lemma fill_default_fresh:
  "\<exists>obj'. snd (fill_default (PRef (length h)) k v (h @ [obj])) = h @ [obj']"
  by (cases obj) (auto simp: fill_default_def bind_def py_in_def py_setitem_def ret_def raise_def lookup_def)

lemma parse_range_None: "parse_range PNone k lo hi h = (Inr None, h)"
  by (simp add: parse_range_def ret_def)

lemma parse_range_absent:
  "lookup h a = Some (ODict d) \<Longrightarrow> map_of d k = None \<Longrightarrow>
   parse_range (PRef a) k lo hi h = (Inr None, h)"
  by (simp add: parse_range_def bind_def py_in_dict ret_def)

lemma parse_range_dict:
  assumes "lookup h a = Some (ODict d)" and "map_of d k = Some (PRef e)"
    and "lookup h e = Some (ODict ent)"
  shows "\<exists>obj. parse_range (PRef a) k lo hi h =
           (Inr (Some (bound_or ent ''min'' lo, bound_or ent ''max'' hi)), h @ [obj])"
proof -
  let ?e1 = "if map_of ent ''min'' = None then dict_set ''min'' lo ent else ent"
  let ?e2 = "if map_of ?e1 ''max'' = None then dict_set ''max'' hi ?e1 else ?e1"
  have copy: "py_copy (PRef e) h = (Inr (PRef (length h)), h @ [ODict ent])"
    using assms(3) by (simp add: py_copy_def ret_def)
  have lo: "map_of ?e2 ''min'' = Some (bound_or ent ''min'' lo)"
    by (auto simp: map_of_dict_set bound_or_def)
  have hi: "map_of ?e2 ''max'' = Some (bound_or ent ''max'' hi)"
    by (auto simp: map_of_dict_set bound_or_def)
  have "parse_range (PRef a) k lo hi h =
          (Inr (Some (bound_or ent ''min'' lo, bound_or ent ''max'' hi)), h @ [ODict ?e2])"
  proof -
    have "parse_range (PRef a) k lo hi h =
            bind (fill_default (PRef (length h)) ''min'' lo) (\<lambda>_.
            bind (fill_default (PRef (length h)) ''max'' hi) (\<lambda>_.
            bind (py_getitem (PRef (length h)) ''min'') (\<lambda>lo.
            bind (py_getitem (PRef (length h)) ''max'') (\<lambda>hi.
            ret (Some (lo, hi)))))) (h @ [ODict ent])"
      by (simp add: parse_range_def bind_def py_in_dict [OF assms(1)] assms(2)
            py_getitem_dict [OF assms(1) assms(2)] copy)
    also have "\<dots> =
            bind (fill_default (PRef (length h)) ''max'' hi) (\<lambda>_.
            bind (py_getitem (PRef (length h)) ''min'') (\<lambda>lo.
            bind (py_getitem (PRef (length h)) ''max'') (\<lambda>hi.
            ret (Some (lo, hi))))) (h @ [ODict ?e1])"
      by (simp only: bind_def fill_default_dict prod.case sum.case)
    also have "\<dots> =
            bind (py_getitem (PRef (length h)) ''min'') (\<lambda>lo.
            bind (py_getitem (PRef (length h)) ''max'') (\<lambda>hi.
            ret (Some (lo, hi)))) (h @ [ODict ?e2])"
      by (simp only: bind_def fill_default_dict prod.case sum.case)
    also have "\<dots> = (Inr (Some (bound_or ent ''min'' lo, bound_or ent ''max'' hi)), h @ [ODict ?e2])"
      by (simp only: bind_def py_getitem_dict [OF lookup_fresh lo]
            py_getitem_dict [OF lookup_fresh hi] prod.case sum.case ret_def)
    finally show ?thesis .
  qed
  then show ?thesis by blast
qed

subsection \<open>\<open>_parse_range\<close> only extends the store\<close>

text \<open>
  Whatever the call does, the store after it is the store before it with new objects
  at the end: the one object the call assigns to is the copy it has made.
\<close>

lemma bind_keeps:
  assumes "\<And>h. P h \<Longrightarrow> P (snd (m h))" and "\<And>x h. P h \<Longrightarrow> P (snd (f x h))" and "P h"
  shows "P (snd (bind m f h))"
proof (cases "m h")
  case (Pair r h')
  then have "P h'" using assms(1) [OF assms(3)] by simp
  then show ?thesis
    using Pair assms(2) [of h'] by (cases r) (simp_all add: bind_def)
qed

lemma fill_default_keeps:
  "\<exists>obj. s = h @ [obj] \<Longrightarrow> \<exists>obj. snd (fill_default (PRef (length h)) k v s) = h @ [obj]"
  using fill_default_fresh by blast

lemma after_copy_keeps:
  "\<exists>obj'. snd ((bind (fill_default (PRef (length h)) ''min'' lo) (\<lambda>_.
            bind (fill_default (PRef (length h)) ''max'' hi) (\<lambda>_.
            bind (py_getitem (PRef (length h)) ''min'') (\<lambda>lo.
            bind (py_getitem (PRef (length h)) ''max'') (\<lambda>hi.
            ret (Some (lo, hi))))))) (h @ [obj])) = h @ [obj']"
  by (intro bind_keeps [where P = "\<lambda>s. \<exists>obj. s = h @ [obj]"] fill_default_keeps)
     (simp_all add: py_getitem_store ret_def)

lemma parse_range_frame: "\<exists>ext. snd (parse_range params k lo hi h) = h @ ext"
proof (cases "params = PNone")
  case True
  then show ?thesis by (simp add: parse_range_None)
next
  case False
  obtain r1 where r1: "py_in k params h = (r1, h)"
    using py_in_store [of k params h] by (cases "py_in k params h") simp
  show ?thesis
  proof (cases "r1 = Inr True")
    case nt: False
    then show ?thesis using False r1
      by (cases r1) (auto simp: parse_range_def bind_def ret_def)
  next
    case True
    obtain r2 where r2: "py_getitem params k h = (r2, h)"
      using py_getitem_store [of params k h] by (cases "py_getitem params k h") simp
    show ?thesis
    proof (cases r2)
      case (Inl e)
      then show ?thesis using False r1 True r2
        by (simp add: parse_range_def bind_def)
    next
      case (Inr item)
      show ?thesis
      proof (cases "py_copy item h")
        case (Pair r3 h3)
        show ?thesis
        proof (cases r3)
          case (Inl e)
          then have "h3 = h" using Pair
            by (auto simp: py_copy_def raise_def ret_def split: pyval.splits option.splits)
          then show ?thesis using False r1 True r2 Inr Pair Inl
            by (simp add: parse_range_def bind_def)
        next
          case entry: (Inr entry)
          then obtain obj where c: "entry = PRef (length h)" "h3 = h @ [obj]" using Pair
            by (auto simp: py_copy_def raise_def ret_def split: pyval.splits option.splits)
          from after_copy_keeps [of h lo hi obj] obtain obj' where
            "snd ((bind (fill_default (PRef (length h)) ''min'' lo) (\<lambda>_.
            bind (fill_default (PRef (length h)) ''max'' hi) (\<lambda>_.
            bind (py_getitem (PRef (length h)) ''min'') (\<lambda>lo.
            bind (py_getitem (PRef (length h)) ''max'') (\<lambda>hi.
            ret (Some (lo, hi))))))) (h @ [obj])) = h @ [obj']" by blast
          then show ?thesis using False r1 True r2 Inr Pair entry c
            by (simp add: parse_range_def bind_def)
        qed
      qed
    qed
  qed
qed

lemma parse_range_lookup:
  assumes "parse_range params k lo hi h = (r, h')" and "lookup h a = Some obj"
  shows "lookup h' a = Some obj"
proof -
  obtain ext where "snd (parse_range params k lo hi h) = h @ ext"
    using parse_range_frame by blast
  then show ?thesis using assms by (simp add: lookup_append)
qed

subsection \<open>The arguments \<open>list_images\<close> hands to the middleware\<close>

lemma wf_entry_append: "wf_entry h d k \<Longrightarrow> wf_entry (h @ ext) d k"
  by (auto simp: wf_entry_def lookup_append split: option.splits pyval.splits pyobj.splits)

lemma expected_range_append:
  "wf_entry h d k \<Longrightarrow> expected_range (h @ ext) d k lo hi = expected_range h d k lo hi"
  by (auto simp: wf_entry_def expected_range_def lookup_append
           split: option.splits pyval.splits pyobj.splits)

lemma parse_range_wf:
  assumes "lookup h a = Some (ODict d)" and "wf_entry h d k"
  shows "\<exists>ext. parse_range (PRef a) k lo hi h = (Inr (expected_range h d k lo hi), h @ ext)"
proof (cases "map_of d k")
  case None
  then have "parse_range (PRef a) k lo hi h = (Inr (expected_range h d k lo hi), h @ [])"
    using parse_range_absent [OF assms(1)] by (simp add: expected_range_def)
  then show ?thesis by blast
next
  case (Some v)
  then obtain e ent where e: "v = PRef e" "lookup h e = Some (ODict ent)"
    using assms(2) by (auto simp: wf_entry_def split: pyval.splits option.splits pyobj.splits)
  from parse_range_dict [OF assms(1) _ e(2), of k lo hi] Some e(1)
  obtain obj where "parse_range (PRef a) k lo hi h =
      (Inr (Some (bound_or ent ''min'' lo, bound_or ent ''max'' hi)), h @ [obj])" by auto
  then have "parse_range (PRef a) k lo hi h = (Inr (expected_range h d k lo hi), h @ [obj])"
    using Some e by (simp add: expected_range_def)
  then show ?thesis by blast
qed

lemma get_or_none_dict:
  "lookup h a = Some (ODict d) \<Longrightarrow>
   get_or_none (PRef a) k h = (Inr (case map_of d k of None \<Rightarrow> PNone | Some v \<Rightarrow> v), h)"
  by (cases "map_of d k")
     (simp_all add: get_or_none_def bind_def py_in_dict py_getitem_dict ret_def)

lemma get_or_false_dict:
  "lookup h a = Some (ODict d) \<Longrightarrow>
   get_or_false (PRef a) k h = (Inr (case map_of d k of None \<Rightarrow> PBool False | Some v \<Rightarrow> v), h)"
  by (cases "map_of d k")
     (simp_all add: get_or_false_def bind_def py_in_dict py_getitem_dict ret_def)

lemma get_lower_or_none_dict:
  "lookup h a = Some (ODict d) \<Longrightarrow>
   get_lower_or_none (PRef a) k h =
     (case map_of d k of
        None \<Rightarrow> (Inr PNone, h)
      | Some (PStr s) \<Rightarrow> (Inr (PStr (lower s)), h)
      | Some _ \<Rightarrow> (Inl AttributeError, h))"
  by (cases "map_of d k")
     (simp_all add: get_lower_or_none_def bind_def py_in_dict py_getitem_dict ret_def
        py_lower_def raise_def split: pyval.splits)

lemma parse_range_wf_ext:
  assumes "lookup h a = Some (ODict d)" and "wf_entry h d k"
  shows "\<exists>ext'. parse_range (PRef a) k lo hi (h @ ext) =
           (Inr (expected_range h d k lo hi), h @ ext')"
proof -
  have "lookup (h @ ext) a = Some (ODict d)"
    using assms(1) by (rule lookup_append)
  moreover have "wf_entry (h @ ext) d k"
    using assms(2) by (rule wf_entry_append)
  ultimately obtain e where
    "parse_range (PRef a) k lo hi (h @ ext) =
       (Inr (expected_range (h @ ext) d k lo hi), (h @ ext) @ e)"
    using parse_range_wf by blast
  then have "parse_range (PRef a) k lo hi (h @ ext) =
       (Inr (expected_range h d k lo hi), h @ (ext @ e))"
    using assms(2) by (simp add: expected_range_append)
  then show ?thesis by blast
qed

lemma list_images_args_wf:
  assumes a: "lookup h a = Some (ODict d)" and wf: "wf_params h d"
  shows "\<exists>ext. list_images_args now project (PRef a) h =
     (Inr \<lparr> la_project = project,
            la_imageAddedRange = expected_range h d ''imageAddedRange'' datetime_time_min now,
            la_lastViewedRange = expected_range h d ''lastViewedRange'' datetime_time_min now,
            la_viewcountRange = expected_range h d ''viewcountRange'' (PInt 0) (PFloat 1000000000),
            la_numAnnoRange = expected_range h d ''numAnnoRange'' (PInt 0) (PFloat 1000000000),
            la_numPredRange = expected_range h d ''numPredRange'' (PInt 0) (PFloat 1000000000),
            la_orderBy = (case map_of d ''orderBy'' of None \<Rightarrow> PNone | Some v \<Rightarrow> v),
            la_order = (case map_of d ''order'' of Some (PStr s) \<Rightarrow> PStr (lower s) | _ \<Rightarrow> PNone),
            la_limit = (case map_of d ''limit'' of None \<Rightarrow> PNone | Some v \<Rightarrow> v) \<rparr>,
      h @ ext)"
proof -
  from wf have w: "wf_entry h d ''imageAddedRange''" "wf_entry h d ''lastViewedRange''"
      "wf_entry h d ''viewcountRange''" "wf_entry h d ''numAnnoRange''"
      "wf_entry h d ''numPredRange''" and o: "wf_order d"
    by (simp_all add: wf_params_def filter_names_def)
  obtain e1 where p1: "parse_range (PRef a) ''imageAddedRange'' datetime_time_min now h =
      (Inr (expected_range h d ''imageAddedRange'' datetime_time_min now), h @ e1)"
    using parse_range_wf [OF a w(1)] by blast
  obtain e2 where p2: "parse_range (PRef a) ''lastViewedRange'' datetime_time_min now (h @ e1) =
      (Inr (expected_range h d ''lastViewedRange'' datetime_time_min now), h @ e2)"
    using parse_range_wf_ext [OF a w(2)] by blast
  obtain e3 where p3: "parse_range (PRef a) ''viewcountRange'' (PInt 0) (PFloat 1000000000) (h @ e2) =
      (Inr (expected_range h d ''viewcountRange'' (PInt 0) (PFloat 1000000000)), h @ e3)"
    using parse_range_wf_ext [OF a w(3)] by blast
  obtain e4 where p4: "parse_range (PRef a) ''numAnnoRange'' (PInt 0) (PFloat 1000000000) (h @ e3) =
      (Inr (expected_range h d ''numAnnoRange'' (PInt 0) (PFloat 1000000000)), h @ e4)"
    using parse_range_wf_ext [OF a w(4)] by blast
  obtain e5 where p5: "parse_range (PRef a) ''numPredRange'' (PInt 0) (PFloat 1000000000) (h @ e4) =
      (Inr (expected_range h d ''numPredRange'' (PInt 0) (PFloat 1000000000)), h @ e5)"
    using parse_range_wf_ext [OF a w(5)] by blast
  have a5: "lookup (h @ e5) a = Some (ODict d)"
    using a by (rule lookup_append)
  have ord: "get_lower_or_none (PRef a) ''order'' (h @ e5) =
      (Inr (case map_of d ''order'' of Some (PStr s) \<Rightarrow> PStr (lower s) | _ \<Rightarrow> PNone), h @ e5)"
    using o by (simp add: get_lower_or_none_dict [OF a5] wf_order_def
                     split: option.splits pyval.splits)
  have "list_images_args now project (PRef a) h =
     (Inr \<lparr> la_project = project,
            la_imageAddedRange = expected_range h d ''imageAddedRange'' datetime_time_min now,
            la_lastViewedRange = expected_range h d ''lastViewedRange'' datetime_time_min now,
            la_viewcountRange = expected_range h d ''viewcountRange'' (PInt 0) (PFloat 1000000000),
            la_numAnnoRange = expected_range h d ''numAnnoRange'' (PInt 0) (PFloat 1000000000),
            la_numPredRange = expected_range h d ''numPredRange'' (PInt 0) (PFloat 1000000000),
            la_orderBy = (case map_of d ''orderBy'' of None \<Rightarrow> PNone | Some v \<Rightarrow> v),
            la_order = (case map_of d ''order'' of Some (PStr s) \<Rightarrow> PStr (lower s) | _ \<Rightarrow> PNone),
            la_limit = (case map_of d ''limit'' of None \<Rightarrow> PNone | Some v \<Rightarrow> v) \<rparr>,
      h @ e5)"
    unfolding list_images_args_def
    by (simp only: bind_def p1 p2 p3 p4 p5 get_or_none_dict [OF a5] ord ret_def
          prod.case sum.case)
  then show ?thesis by blast
qed

lemma list_images_args_orderBy:
  assumes run: "list_images_args now project (PRef a) h = (Inr args, h')"
    and a: "lookup h a = Some (ODict d)"
  shows "la_orderBy args = (case map_of d ''orderBy'' of None \<Rightarrow> PNone | Some v \<Rightarrow> v)"
proof -
  from run obtain r1 h1 where s1: "parse_range (PRef a) ''imageAddedRange'' datetime_time_min now h = (Inr r1, h1)"
    and c1: "bind (parse_range (PRef a) ''lastViewedRange'' datetime_time_min now) (\<lambda>lastViewedRange.
     bind (parse_range (PRef a) ''viewcountRange'' (PInt 0) (PFloat 1000000000)) (\<lambda>viewcountRange.
     bind (parse_range (PRef a) ''numAnnoRange'' (PInt 0) (PFloat 1000000000)) (\<lambda>numAnnoRange.
     bind (parse_range (PRef a) ''numPredRange'' (PInt 0) (PFloat 1000000000)) (\<lambda>numPredRange.
     bind (get_or_none (PRef a) ''orderBy'') (\<lambda>orderBy.
     bind (get_lower_or_none (PRef a) ''order'') (\<lambda>order.
     bind (get_or_none (PRef a) ''limit'') (\<lambda>limit.
     ret \<lparr> la_project = project,
           la_imageAddedRange = r1,
           la_lastViewedRange = lastViewedRange,
           la_viewcountRange = viewcountRange,
           la_numAnnoRange = numAnnoRange,
           la_numPredRange = numPredRange,
           la_orderBy = orderBy,
           la_order = order,
           la_limit = limit \<rparr>))))))) h1 = (Inr args, h')"
    unfolding list_images_args_def by (rule bind_succeeds)
  from c1 obtain r2 h2 where s2: "parse_range (PRef a) ''lastViewedRange'' datetime_time_min now h1 = (Inr r2, h2)"
    and c2: "bind (parse_range (PRef a) ''viewcountRange'' (PInt 0) (PFloat 1000000000)) (\<lambda>viewcountRange.
     bind (parse_range (PRef a) ''numAnnoRange'' (PInt 0) (PFloat 1000000000)) (\<lambda>numAnnoRange.
     bind (parse_range (PRef a) ''numPredRange'' (PInt 0) (PFloat 1000000000)) (\<lambda>numPredRange.
     bind (get_or_none (PRef a) ''orderBy'') (\<lambda>orderBy.
     bind (get_lower_or_none (PRef a) ''order'') (\<lambda>order.
     bind (get_or_none (PRef a) ''limit'') (\<lambda>limit.
     ret \<lparr> la_project = project,
           la_imageAddedRange = r1,
           la_lastViewedRange = r2,
           la_viewcountRange = viewcountRange,
           la_numAnnoRange = numAnnoRange,
           la_numPredRange = numPredRange,
           la_orderBy = orderBy,
           la_order = order,
           la_limit = limit \<rparr>)))))) h2 = (Inr args, h')"
    by (rule bind_succeeds)
  from c2 obtain r3 h3 where s3: "parse_range (PRef a) ''viewcountRange'' (PInt 0) (PFloat 1000000000) h2 = (Inr r3, h3)"
    and c3: "bind (parse_range (PRef a) ''numAnnoRange'' (PInt 0) (PFloat 1000000000)) (\<lambda>numAnnoRange.
     bind (parse_range (PRef a) ''numPredRange'' (PInt 0) (PFloat 1000000000)) (\<lambda>numPredRange.
     bind (get_or_none (PRef a) ''orderBy'') (\<lambda>orderBy.
     bind (get_lower_or_none (PRef a) ''order'') (\<lambda>order.
     bind (get_or_none (PRef a) ''limit'') (\<lambda>limit.
     ret \<lparr> la_project = project,
           la_imageAddedRange = r1,
           la_lastViewedRange = r2,
           la_viewcountRange = r3,
           la_numAnnoRange = numAnnoRange,
           la_numPredRange = numPredRange,
           la_orderBy = orderBy,
           la_order = order,
           la_limit = limit \<rparr>))))) h3 = (Inr args, h')"
    by (rule bind_succeeds)
  from c3 obtain r4 h4 where s4: "parse_range (PRef a) ''numAnnoRange'' (PInt 0) (PFloat 1000000000) h3 = (Inr r4, h4)"
    and c4: "bind (parse_range (PRef a) ''numPredRange'' (PInt 0) (PFloat 1000000000)) (\<lambda>numPredRange.
     bind (get_or_none (PRef a) ''orderBy'') (\<lambda>orderBy.
     bind (get_lower_or_none (PRef a) ''order'') (\<lambda>order.
     bind (get_or_none (PRef a) ''limit'') (\<lambda>limit.
     ret \<lparr> la_project = project,
           la_imageAddedRange = r1,
           la_lastViewedRange = r2,
           la_viewcountRange = r3,
           la_numAnnoRange = r4,
           la_numPredRange = numPredRange,
           la_orderBy = orderBy,
           la_order = order,
           la_limit = limit \<rparr>)))) h4 = (Inr args, h')"
    by (rule bind_succeeds)
  from c4 obtain r5 h5 where s5: "parse_range (PRef a) ''numPredRange'' (PInt 0) (PFloat 1000000000) h4 = (Inr r5, h5)"
    and c5: "bind (get_or_none (PRef a) ''orderBy'') (\<lambda>orderBy.
     bind (get_lower_or_none (PRef a) ''order'') (\<lambda>order.
     bind (get_or_none (PRef a) ''limit'') (\<lambda>limit.
     ret \<lparr> la_project = project,
           la_imageAddedRange = r1,
           la_lastViewedRange = r2,
           la_viewcountRange = r3,
           la_numAnnoRange = r4,
           la_numPredRange = r5,
           la_orderBy = orderBy,
           la_order = order,
           la_limit = limit \<rparr>))) h5 = (Inr args, h')"
    by (rule bind_succeeds)
  have a5: "lookup h5 a = Some (ODict d)"
    using a s1 s2 s3 s4 s5 by (blast intro: parse_range_lookup)
  from c5 obtain r7 h7 where c6: "bind (get_or_none (PRef a) ''limit'') (\<lambda>limit.
     ret \<lparr> la_project = project,
           la_imageAddedRange = r1,
           la_lastViewedRange = r2,
           la_viewcountRange = r3,
           la_numAnnoRange = r4,
           la_numPredRange = r5,
           la_orderBy = (case map_of d ''orderBy'' of None \<Rightarrow> PNone | Some v \<Rightarrow> v),
           la_order = r7,
           la_limit = limit \<rparr>) h7 = (Inr args, h')"
    by (auto simp: get_or_none_dict [OF a5] bind_Inr [of "get_or_none (PRef a) ''orderBy''"]
             elim: bind_succeeds)
  then show ?thesis
    by (auto simp: ret_def elim!: bind_succeeds)
qed


lemmas py_eval = parse_range_def list_images_args_def list_images_def fill_default_def
  get_or_none_def get_lower_or_none_def get_or_false_def remove_images_def
  remove_images_args_def bind_def ret_def raise_def lookup_def py_in_def py_getitem_def
  py_setitem_def py_copy_def py_lower_def

subsection \<open>C3: an \<open>orderBy\<close> outside the allow-list\<close>

text \<open>
  C3: when the request supplies an \<open>orderBy\<close> value that is not a column of the
  allow-list (a JSON \<open>null\<close> is no value: the handler cannot tell it from an absent
  key), listing the images fails and no query is issued, whatever else the request
  holds; for an administrator whose other parameters are well-formed the failure is
  \<open>InvalidParameter\<close>. The handler forwards the value as it is and catches nothing;
  the check is the one of the middleware as the specification describes it.
\<close>

theorem list_images_rejects_unlisted_orderBy:
  assumes "lookup h a = Some (ODict d)" and "map_of d ''orderBy'' = Some v"
    and "v \<noteq> PNone" and "v \<notin> PStr ` sortable"
  shows "\<exists>e. list_images (listImages_spec sortable orders tle inventory)
                authorized now project (PRef a) h = (Inl e, [])
             \<and> (authorized \<and> wf_params h d \<longrightarrow> e = InvalidParameter)"
proof (cases authorized)
  case False
  then show ?thesis by (simp add: list_images_def)
next
  case True
  show ?thesis
  proof (cases "list_images_args now project (PRef a) h")
    case (Pair r h')
    show ?thesis
    proof (cases r)
      case (Inl e)
      moreover have "\<not> wf_params h d"
      proof
        assume "wf_params h d"
        from list_images_args_wf [OF assms(1) this, of now project] Pair Inl
        show False by auto
      qed
      ultimately show ?thesis using True Pair by (simp add: list_images_def)
    next
      case (Inr args)
      then have "la_orderBy args = v"
        using list_images_args_orderBy [OF _ assms(1)] Pair assms(2) by simp
      then have "buildQuery sortable orders args = Inl InvalidParameter"
        using assms(3,4) by (simp add: buildQuery_def)
      then show ?thesis
        using True Pair Inr by (simp add: list_images_def listImages_spec_def)
    qed
  qed
qed

theorem list_images_rejects_unlisted_orderBy_witness:
  "lookup [ODict [(''orderBy'', PStr ''DROP TABLE image'')]] 0
     = Some (ODict [(''orderBy'', PStr ''DROP TABLE image'')])
   \<and> map_of [(''orderBy'', PStr ''DROP TABLE image'')] ''orderBy''
     = Some (PStr ''DROP TABLE image'')
   \<and> PStr ''DROP TABLE image'' \<notin> PStr ` {''id'', ''filename'', ''viewcount''}
   \<and> list_images (listImages_spec {''id'', ''filename'', ''viewcount''} {''asc'', ''desc''}
                    (\<lambda>x y. True) [])
        True (PDatetime 1700000000) ''birds'' (PRef 0)
        [ODict [(''orderBy'', PStr ''DROP TABLE image'')]]
     = (Inl InvalidParameter, [])"
proof -
  have h1: "lookup [ODict [(''orderBy'', PStr ''DROP TABLE image'')]] 0
     = Some (ODict [(''orderBy'', PStr ''DROP TABLE image'')])"
    by (simp add: lookup_def)
  have h2: "map_of [(''orderBy'', PStr ''DROP TABLE image'')] ''orderBy''
     = Some (PStr ''DROP TABLE image'')" by simp
  have h3: "PStr ''DROP TABLE image'' \<noteq> PNone" by simp
  have h4: "PStr ''DROP TABLE image'' \<notin> PStr ` {''id'', ''filename'', ''viewcount''}" by simp
  have wf: "wf_params [ODict [(''orderBy'', PStr ''DROP TABLE image'')]]
              [(''orderBy'', PStr ''DROP TABLE image'')]"
    by (simp add: wf_params_def filter_names_def wf_entry_def wf_order_def)
  from list_images_rejects_unlisted_orderBy [OF h1 h2 h3 h4, of "{''asc'', ''desc''}" "\<lambda>x y. True" "[]" True
             "PDatetime 1700000000" "''birds''"] wf
  have "list_images (listImages_spec {''id'', ''filename'', ''viewcount''} {''asc'', ''desc''}
                    (\<lambda>x y. True) [])
        True (PDatetime 1700000000) ''birds'' (PRef 0)
        [ODict [(''orderBy'', PStr ''DROP TABLE image'')]]
     = (Inl InvalidParameter, [])" by auto
  then show ?thesis using h1 h2 h4 by blast
qed

subsection \<open>C4: a viewcount range with a minimum only\<close>




subsection \<open>C5: the defaults of \<open>_parse_range\<close>\<close>

text \<open>
  C5 fails on the code in the default minimum of the two temporal filters:
  \<open>list_images\<close> passes \<open>datetime.time.min\<close>, the time of day \<open>00:00:00\<close>, where the
  claim has the earliest representable instant. For the request
  \<open>{imageAddedRange: {max: 1600000000}}\<close> the range handed to the middleware starts
  at \<open>time(0, 0, 0, 0)\<close>, which is no \<open>datetime\<close> at all, while the default maximum
  of the same filter, the current time, is one.
\<close>

theorem temporal_default_minimum_is_time_of_day:
  "fst (list_images_args (PDatetime 1700000000) ''birds'' (PRef 0)
          [ODict [(''imageAddedRange'', PRef 1)], ODict [(''max'', PInt 1600000000)]])
   = Inr \<lparr> la_project = ''birds'',
           la_imageAddedRange = Some (PTime 0 0 0 0, PInt 1600000000),
           la_lastViewedRange = None,
           la_viewcountRange = None,
           la_numAnnoRange = None,
           la_numPredRange = None,
           la_orderBy = PNone, la_order = PNone, la_limit = PNone \<rparr>
   \<and> (\<forall>t. datetime_time_min \<noteq> PDatetime t)"
  by (simp add: py_eval datetime_time_min_def)

text \<open>
  The rest of what is said of \<open>_parse_range\<close> holds. It returns \<open>None\<close> when
  \<open>params\<close> is \<open>None\<close> and when the name is no key of \<open>params\<close>; for an entry that
  is a dict it returns the pair of its \<open>min\<close> and \<open>max\<close>, with the default given for
  a bound that is missing. \<open>list_images\<close> calls it with \<open>datetime.time.min\<close> and the
  current time for \<open>imageAddedRange\<close> and \<open>lastViewedRange\<close>, and with \<open>0\<close> and
  \<open>1e9\<close> for \<open>viewcountRange\<close>, \<open>numAnnoRange\<close> and \<open>numPredRange\<close>.
\<close>

theorem parse_range_defaults:
  assumes "lookup h a = Some (ODict d)"
  shows "parse_range PNone k lo hi h = (Inr None, h)
    \<and> (map_of d k = None \<longrightarrow> parse_range (PRef a) k lo hi h = (Inr None, h))
    \<and> (map_of d k = Some (PRef e) \<and> lookup h e = Some (ODict entry) \<longrightarrow>
         fst (parse_range (PRef a) k lo hi h)
           = Inr (Some (bound_or entry ''min'' lo, bound_or entry ''max'' hi)))
    \<and> (wf_params h d \<longrightarrow>
         fst (list_images_args now project (PRef a) h) =
           Inr \<lparr> la_project = project,
            la_imageAddedRange = expected_range h d ''imageAddedRange'' datetime_time_min now,
            la_lastViewedRange = expected_range h d ''lastViewedRange'' datetime_time_min now,
            la_viewcountRange = expected_range h d ''viewcountRange'' (PInt 0) (PFloat 1000000000),
            la_numAnnoRange = expected_range h d ''numAnnoRange'' (PInt 0) (PFloat 1000000000),
            la_numPredRange = expected_range h d ''numPredRange'' (PInt 0) (PFloat 1000000000),
            la_orderBy = (case map_of d ''orderBy'' of None \<Rightarrow> PNone | Some v \<Rightarrow> v),
            la_order = (case map_of d ''order'' of Some (PStr s) \<Rightarrow> PStr (lower s) | _ \<Rightarrow> PNone),
            la_limit = (case map_of d ''limit'' of None \<Rightarrow> PNone | Some v \<Rightarrow> v) \<rparr>)"
proof (intro conjI impI)
  show "parse_range PNone k lo hi h = (Inr None, h)"
    by (rule parse_range_None)
  show "parse_range (PRef a) k lo hi h = (Inr None, h)" if "map_of d k = None"
    using parse_range_absent [OF assms that] .
  show "fst (parse_range (PRef a) k lo hi h)
           = Inr (Some (bound_or entry ''min'' lo, bound_or entry ''max'' hi))"
    if "map_of d k = Some (PRef e) \<and> lookup h e = Some (ODict entry)"
    using parse_range_dict [OF assms, of k e entry lo hi] that by auto
  show "fst (list_images_args now project (PRef a) h) =
           Inr \<lparr> la_project = project,
            la_imageAddedRange = expected_range h d ''imageAddedRange'' datetime_time_min now,
            la_lastViewedRange = expected_range h d ''lastViewedRange'' datetime_time_min now,
            la_viewcountRange = expected_range h d ''viewcountRange'' (PInt 0) (PFloat 1000000000),
            la_numAnnoRange = expected_range h d ''numAnnoRange'' (PInt 0) (PFloat 1000000000),
            la_numPredRange = expected_range h d ''numPredRange'' (PInt 0) (PFloat 1000000000),
            la_orderBy = (case map_of d ''orderBy'' of None \<Rightarrow> PNone | Some v \<Rightarrow> v),
            la_order = (case map_of d ''order'' of Some (PStr s) \<Rightarrow> PStr (lower s) | _ \<Rightarrow> PNone),
            la_limit = (case map_of d ''limit'' of None \<Rightarrow> PNone | Some v \<Rightarrow> v) \<rparr>"
    if "wf_params h d"
    using list_images_args_wf [OF assms that, of now project] by auto
qed

theorem parse_range_defaults_witness:
  "lookup [ODict [(''viewcountRange'', PRef 1), (''imageAddedRange'', PRef 2)],
           ODict [(''min'', PInt 5)], ODict [(''max'', PDatetime 1600000000)]] 0
     = Some (ODict [(''viewcountRange'', PRef 1), (''imageAddedRange'', PRef 2)])
   \<and> parse_range (PRef 0) ''numAnnoRange'' (PInt 0) (PFloat 1000000000)
        [ODict [(''viewcountRange'', PRef 1), (''imageAddedRange'', PRef 2)],
         ODict [(''min'', PInt 5)], ODict [(''max'', PDatetime 1600000000)]]
     = (Inr None,
        [ODict [(''viewcountRange'', PRef 1), (''imageAddedRange'', PRef 2)],
         ODict [(''min'', PInt 5)], ODict [(''max'', PDatetime 1600000000)]])
   \<and> fst (parse_range (PRef 0) ''viewcountRange'' (PInt 0) (PFloat 1000000000)
        [ODict [(''viewcountRange'', PRef 1), (''imageAddedRange'', PRef 2)],
         ODict [(''min'', PInt 5)], ODict [(''max'', PDatetime 1600000000)]])
     = Inr (Some (PInt 5, PFloat 1000000000))
   \<and> fst (list_images_args (PDatetime 1700000000) ''birds'' (PRef 0)
        [ODict [(''viewcountRange'', PRef 1), (''imageAddedRange'', PRef 2)],
         ODict [(''min'', PInt 5)], ODict [(''max'', PDatetime 1600000000)]])
     = Inr \<lparr> la_project = ''birds'',
             la_imageAddedRange = Some (PTime 0 0 0 0, PDatetime 1600000000),
             la_lastViewedRange = None,
             la_viewcountRange = Some (PInt 5, PFloat 1000000000),
             la_numAnnoRange = None,
             la_numPredRange = None,
             la_orderBy = PNone, la_order = PNone, la_limit = PNone \<rparr>"
proof -
  let ?d = "[(''viewcountRange'', PRef 1), (''imageAddedRange'', PRef 2)]"
  let ?h = "[ODict ?d, ODict [(''min'', PInt 5)], ODict [(''max'', PDatetime 1600000000)]]"
  have h1: "lookup ?h 0 = Some (ODict ?d)" by (simp add: lookup_def)
  have wf: "wf_params ?h ?d"
    by (simp add: wf_params_def filter_names_def wf_entry_def wf_order_def lookup_def)
  have a: "map_of ?d ''numAnnoRange'' = None" by simp
  have v: "map_of ?d ''viewcountRange'' = Some (PRef 1) \<and> lookup ?h 1 = Some (ODict [(''min'', PInt 5)])"
    by (simp add: lookup_def)
  from parse_range_defaults [OF h1, of "''numAnnoRange''" "PInt 0" "PFloat 1000000000"] a
  have c1: "parse_range (PRef 0) ''numAnnoRange'' (PInt 0) (PFloat 1000000000) ?h = (Inr None, ?h)"
    by blast
  from parse_range_defaults [OF h1, of "''viewcountRange''" "PInt 0" "PFloat 1000000000" 1 "[(''min'', PInt 5)]"] v
  have c2: "fst (parse_range (PRef 0) ''viewcountRange'' (PInt 0) (PFloat 1000000000) ?h)
     = Inr (Some (PInt 5, PFloat 1000000000))"
    by (simp add: bound_or_def)
  from parse_range_defaults [OF h1, of "''viewcountRange''" "PInt 0" "PFloat 1000000000" 1 "[(''min'', PInt 5)]"
             "PDatetime 1700000000" "''birds''"] wf
  have c3: "fst (list_images_args (PDatetime 1700000000) ''birds'' (PRef 0) ?h)
     = Inr \<lparr> la_project = ''birds'',
             la_imageAddedRange = Some (PTime 0 0 0 0, PDatetime 1600000000),
             la_lastViewedRange = None,
             la_viewcountRange = Some (PInt 5, PFloat 1000000000),
             la_numAnnoRange = None,
             la_numPredRange = None,
             la_orderBy = PNone, la_order = PNone, la_limit = PNone \<rparr>"
    by (simp add: expected_range_def bound_or_def lookup_def datetime_time_min_def)
  show ?thesis using h1 c1 c2 c3 by blast
qed

subsection \<open>C9: the flags of \<open>remove_images\<close>\<close>

text \<open>
  C9: for a request body with the key \<open>images\<close>, the removal is performed with
  \<open>forceRemove = False\<close> when that key is absent and with \<open>deleteFromDisk = False\<close>
  when that key is absent (and with the value given when it is present). The answer is
  then the one of the middleware: the absence of a flag is no error.
\<close>

theorem remove_images_flags_default_False:
  assumes "lookup h a = Some (ODict d)" and "map_of d ''images'' = Some imageIDs"
  shows "remove_images removeImages True project (PRef a) h =
           Inr (case removeImages h
                       \<lparr> ra_project = project,
                         ra_imageIDs = imageIDs,
                         ra_forceRemove =
                           (case map_of d ''forceRemove'' of None \<Rightarrow> PBool False | Some v \<Rightarrow> v),
                         ra_deleteFromDisk =
                           (case map_of d ''deleteFromDisk'' of None \<Rightarrow> PBool False | Some v \<Rightarrow> v) \<rparr>
                of Inl e \<Rightarrow> Status1 e | Inr images_deleted \<Rightarrow> Status0 images_deleted)"
  by (simp add: remove_images_def remove_images_args_def bind_def
        py_getitem_dict [OF assms] get_or_false_dict [OF assms(1)] ret_def
      split: sum.splits)

theorem remove_images_flags_default_False_witness:
  "lookup [ODict [(''images'', PRef 1)], OList [PInt 4, PInt 7]] 0
     = Some (ODict [(''images'', PRef 1)])
   \<and> map_of [(''images'', PRef 1)] ''images'' = Some (PRef 1)
   \<and> remove_images (\<lambda>h args. Inr (ra_forceRemove args, ra_deleteFromDisk args))
        True ''birds'' (PRef 0) [ODict [(''images'', PRef 1)], OList [PInt 4, PInt 7]]
     = Inr (Status0 (PBool False, PBool False))"
proof -
  have h1: "lookup [ODict [(''images'', PRef 1)], OList [PInt 4, PInt 7]] 0
     = Some (ODict [(''images'', PRef 1)])" by (simp add: lookup_def)
  have h2: "map_of [(''images'', PRef 1)] ''images'' = Some (PRef 1)" by simp
  show ?thesis
    using h1 h2 remove_images_flags_default_False [OF h1 h2, of "\<lambda>h args. Inr (ra_forceRemove args, ra_deleteFromDisk args)"
                      "''birds''"]
    by simp
qed

subsection \<open>C10: \<open>_parse_range\<close> leaves the caller's objects alone\<close>

text \<open>
  C10: every object of the store is, after a call of \<open>_parse_range\<close>, what it was
  before, whatever \<open>params\<close>, the name and the defaults are and whether the call
  returns or raises: \<open>params\<close> and the filter entry are unchanged, because the
  defaults are assigned to the copy of the entry, a new object.
\<close>

theorem parse_range_keeps_store_objects:
  assumes "lookup h a = Some obj"
  shows "lookup (snd (parse_range params k lo hi h)) a = Some obj"
proof -
  obtain ext where "snd (parse_range params k lo hi h) = h @ ext"
    using parse_range_frame by blast
  then show ?thesis using assms by (simp add: lookup_append)
qed

theorem parse_range_keeps_store_objects_witness:
  "lookup [ODict [(''viewcountRange'', PRef 1)], ODict [(''min'', PInt 5)]] 1
     = Some (ODict [(''min'', PInt 5)])
   \<and> lookup (snd (parse_range (PRef 0) ''viewcountRange'' (PInt 0) (PFloat 1000000000)
                    [ODict [(''viewcountRange'', PRef 1)], ODict [(''min'', PInt 5)]])) 1
     = Some (ODict [(''min'', PInt 5)])
   \<and> parse_range (PRef 0) ''viewcountRange'' (PInt 0) (PFloat 1000000000)
                    [ODict [(''viewcountRange'', PRef 1)], ODict [(''min'', PInt 5)]]
     = (Inr (Some (PInt 5, PFloat 1000000000)),
        [ODict [(''viewcountRange'', PRef 1)], ODict [(''min'', PInt 5)],
         ODict [(''min'', PInt 5), (''max'', PFloat 1000000000)]])"
proof -
  have h1: "lookup [ODict [(''viewcountRange'', PRef 1)], ODict [(''min'', PInt 5)]] 1
     = Some (ODict [(''min'', PInt 5)])" by (simp add: lookup_def)
  have run: "parse_range (PRef 0) ''viewcountRange'' (PInt 0) (PFloat 1000000000)
                    [ODict [(''viewcountRange'', PRef 1)], ODict [(''min'', PInt 5)]]
     = (Inr (Some (PInt 5, PFloat 1000000000)),
        [ODict [(''viewcountRange'', PRef 1)], ODict [(''min'', PInt 5)],
         ODict [(''min'', PInt 5), (''max'', PFloat 1000000000)]])"
    by (simp add: py_eval)
  show ?thesis
    using h1 run parse_range_keeps_store_objects [OF h1, of "PRef 0" "''viewcountRange''" "PInt 0" "PFloat 1000000000"]
    by blast
qed

end
